theory Spec2Isabelle
  imports Main
begin

section \<open>Errors, handles and outcomes\<close>

text \<open>
  The package's error values (the file declaring \<open>ErrPrimaryInMaintenance\<close> and its
  siblings).  \<open>DriverError\<close> stands for any error produced by the underlying
  \<open>database/sql\<close> handle (a failed ping or close), tagged by a number.
\<close>

datatype error =
    ErrPrimaryInMaintenance
  | ErrNotProvidedPrimary
  | ErrNotProvidedReplicas
  | ErrNotQuerySQL
  | ErrNoReplicaAvailable
  | DriverError nat

text \<open>A \<open>*sql.DB\<close>: the nil pointer, or a pointer identified by its address.\<close>

datatype handle = NilDB | Ptr nat

text \<open>The ways a Go call can abort instead of returning.\<close>

datatype fault =
    PanicWith error
  | NilDereference
  | DivideByZero
  | IndexOutOfRange
  | CloseOfClosedChannel

datatype 'a outcome = Return 'a | Abort fault

section \<open>Query classification\<close>

text \<open>
  \<open>strings.ToLower\<close> on bytes: an upper-case ASCII letter is moved to lower case,
  every other byte is kept.  On input holding a byte outside ASCII the library maps
  runes instead; such a rune lowers to a rune outside ASCII, to \<open>i\<close> or to \<open>k\<close>,
  so the result differs from the two words it is compared with here, \<open>select\<close> and
  \<open>true\<close>, in both readings.
\<close>

definition toLowerByte :: "char \<Rightarrow> char" where
  "toLowerByte c =
     (let n = (of_char c :: nat) in if 65 \<le> n \<and> n \<le> 90 then char_of (n + 32) else c)"

definition ToLower :: "string \<Rightarrow> string" where
  "ToLower s = map toLowerByte s"

text \<open>
  The default value of the variable \<open>IsQuerySqlFunc\<close>:
  \<^verbatim>\<open>len(query) >= 6 && strings.ToLower(query[:6]) == "select"\<close>.
\<close>

definition IsQuerySqlFunc :: "string \<Rightarrow> bool" where
  "IsQuerySqlFunc query = (length query \<ge> 6 \<and> ToLower (take 6 query) = ''select'')"

text \<open>
  The wording of the specification, kept apart from the code: two bytes are the same
  letter up to case, and a text begins with a keyword case-insensitively.
\<close>

definition same_letter :: "char \<Rightarrow> char \<Rightarrow> bool" where
  "same_letter a b =
     (a = b
      \<or> (65 \<le> (of_char a :: nat) \<and> (of_char a :: nat) \<le> 90 \<and> (of_char b :: nat) = of_char a + 32)
      \<or> (65 \<le> (of_char b :: nat) \<and> (of_char b :: nat) \<le> 90 \<and> (of_char a :: nat) = of_char b + 32))"

fun begins_with_ci :: "string \<Rightarrow> string \<Rightarrow> bool" where
  "begins_with_ci [] q = True"
| "begins_with_ci (k # ks) [] = False"
| "begins_with_ci (k # ks) (c # cs) = (same_letter k c \<and> begins_with_ci ks cs)"

definition isSpaceByte :: "char \<Rightarrow> bool" where
  "isSpaceByte c = ((of_char c :: nat) \<in> {9, 10, 11, 12, 13, 32})"

section \<open>Package variables and the routing directive\<close>

text \<open>
  The package-level variables every call reads.  They are mutable in the source, so each
  operation takes their current values as an argument.  \<open>IsQuerySqlFunc_now\<close> is
  the function the variable \<open>IsQuerySqlFunc\<close> holds at the time of the call;
  initially it is \<^const>\<open>IsQuerySqlFunc\<close>.
\<close>

record globals =
  DoValidateNew :: bool
  DisableReplicaAutoFailover :: bool
  DefaultReplicaAutoFailoverInterval :: int
  IsQuerySqlFunc_now :: "string \<Rightarrow> bool"

text \<open>
  A \<open>context.Context\<close>, as far as this package reads it: the values stored under
  keys of type \<open>contextKey\<close> (an \<open>int\<close>).  An absent key and a nil value both
  read as \<open>None\<close>.
\<close>

type_synonym Context = "int \<rightharpoonup> unit"

definition ContextUsePrimaryKey :: int where
  "ContextUsePrimaryKey = 0"

definition emptyContextValue :: unit where
  "emptyContextValue = ()"

definition WithPrimary :: "Context \<Rightarrow> Context" where
  "WithPrimary ctx = ctx(ContextUsePrimaryKey \<mapsto> emptyContextValue)"

definition UsePrimaryFromContext :: "Context \<Rightarrow> bool" where
  "UsePrimaryFromContext ctx =
     (case ctx ContextUsePrimaryKey of Some val \<Rightarrow> True | None \<Rightarrow> False)"

section \<open>The router\<close>

datatype chan = ChanOpen | ChanClosed

text \<open>
  The struct \<open>DB\<close>.  \<open>count\<close> is a Go \<open>int\<close> (64 bits, two's complement);
  the lock \<open>countMutex\<close> has no field here, its use shows in the monitor's trace.
\<close>

record DB =
  master :: handle
  readreplicas :: "handle list"
  count :: int
  needHeartbeat :: bool
  unavailableReplicas :: "handle set"
  stopHeartbeat :: chan
  primaryInMaintence :: bool

text \<open>What the goroutine started by \<open>New\<close> captures besides the router: the ticker,
  a nil pointer (\<open>None\<close>) when no ticker was made.\<close>

record monitor =
  ticker :: "int option"

subsection \<open>Validation\<close>

primrec validateReplicas :: "handle list \<Rightarrow> error option" where
  "validateReplicas [] = None"
| "validateReplicas (r # rs) =
     (if r = NilDB then Some ErrNotProvidedReplicas else validateReplicas rs)"

definition validateNew :: "handle \<Rightarrow> handle list \<Rightarrow> error option" where
  "validateNew m rs =
     (if m = NilDB then Some ErrNotProvidedPrimary
      else if length rs = 0 then Some ErrNotProvidedReplicas
      else validateReplicas rs)"

definition validateQuery :: "globals \<Rightarrow> string \<Rightarrow> error option" where
  "validateQuery g query =
     (if \<not> IsQuerySqlFunc_now g query then Some ErrNotQuerySQL else None)"

subsection \<open>Health pass\<close>

text \<open>
  \<open>heartbeat\<close> pings every replica in list order and collects the ones whose ping
  fails in a fresh map.  The argument \<open>ping\<close> is the answer of the driver for the
  handle at an address during this pass.  Pinging a nil handle dereferences it.
\<close>

fun heartbeat_loop :: "(nat \<Rightarrow> error option) \<Rightarrow> handle list \<Rightarrow> handle set \<Rightarrow> handle set outcome" where
  "heartbeat_loop ping [] u = Return u"
| "heartbeat_loop ping (r # rs) u =
     (case r of
        NilDB \<Rightarrow> Abort NilDereference
      | Ptr a \<Rightarrow> heartbeat_loop ping rs (case ping a of None \<Rightarrow> u | Some err \<Rightarrow> insert r u))"

definition heartbeat :: "(nat \<Rightarrow> error option) \<Rightarrow> handle list \<Rightarrow> handle set outcome" where
  "heartbeat ping rs = heartbeat_loop ping rs {}"

subsection \<open>Construction\<close>

definition EnvVarPrimaryInMaintenanceKey :: string where
  "EnvVarPrimaryInMaintenanceKey = ''MYDB_PRIMARY_IN_MAINTENANCE''"

text \<open>
  \<open>New\<close> returns the router together with the goroutine it starts.  The goroutine is
  started on every path that reaches the end of \<open>New\<close>; only the ticker depends on
  \<open>needHeartbeat\<close>.
\<close>

definition New ::
  "globals \<Rightarrow> (string \<Rightarrow> string) \<Rightarrow> (nat \<Rightarrow> error option) \<Rightarrow> handle \<Rightarrow> handle list
     \<Rightarrow> (DB \<times> monitor) outcome" where
  "New g getenv ping m rs =
     (case (if DoValidateNew g then validateNew m rs else None) of
        Some err \<Rightarrow> Abort (PanicWith err)
      | None \<Rightarrow>
          (let nh = \<not> DisableReplicaAutoFailover g in
           case (if nh then heartbeat ping rs else Return {}) of
             Abort f \<Rightarrow> Abort f
           | Return u \<Rightarrow>
               Return
                 (\<lparr>master = m, readreplicas = rs, count = - 1, needHeartbeat = nh,
                   unavailableReplicas = u, stopHeartbeat = ChanOpen,
                   primaryInMaintence =
                     (ToLower (getenv EnvVarPrimaryInMaintenanceKey) = ''true'')\<rparr>,
                  \<lparr>ticker =
                     (if nh then Some (DefaultReplicaAutoFailoverInterval g) else None)\<rparr>)))"

subsection \<open>The monitor goroutine\<close>

datatype event = Tick | Stop

datatype mon_step =
    MutexLock
  | PingReplica handle
  | StoreUnavailable "handle set"
  | MutexUnlock
  | TickerStop

text \<open>
  One turn of the goroutine's \<open>for { select { ... } }\<close>, for the event the select
  takes.  Entering the select evaluates \<open>ticker.C\<close>, which dereferences the ticker.
  The result is the router, the steps taken (the lock, the pings of the health pass,
  the assignment of the new set), and whether the loop goes on.
\<close>

definition monitor_turn ::
  "(nat \<Rightarrow> error option) \<Rightarrow> monitor \<Rightarrow> event \<Rightarrow> DB \<Rightarrow> (DB \<times> mon_step list \<times> bool) outcome" where
  "monitor_turn ping mon ev db =
     (case ticker mon of
        None \<Rightarrow> Abort NilDereference
      | Some t \<Rightarrow>
          (case ev of
             Tick \<Rightarrow>
               (case heartbeat ping (readreplicas db) of
                  Abort f \<Rightarrow> Abort f
                | Return u \<Rightarrow>
                    Return (db\<lparr>unavailableReplicas := u\<rparr>,
                            MutexLock # map PingReplica (readreplicas db)
                              @ [StoreUnavailable u, MutexUnlock],
                            True))
           | Stop \<Rightarrow> Return (db, [TickerStop], False)))"

subsection \<open>Round robin\<close>

text \<open>
  Go's \<open>int\<close> arithmetic: \<open>++\<close> wraps around at 64 bits, and \<open>%\<close> truncates
  towards zero (the result has the sign of the dividend).
\<close>

definition wrap64 :: "int \<Rightarrow> int" where
  "wrap64 x = (x + 2 ^ 63) mod 2 ^ 64 - 2 ^ 63"

definition go_rem :: "int \<Rightarrow> int \<Rightarrow> int" where
  "go_rem a b = sgn a * (\<bar>a\<bar> mod \<bar>b\<bar>)"

text \<open>
  The locked part of \<open>readReplicaRoundRobinHelper\<close>: \<open>db.count++\<close>, then
  \<open>idx = db.count % len(db.readreplicas)\<close>.
\<close>

definition nextIdx :: "DB \<Rightarrow> (DB \<times> int) outcome" where
  "nextIdx db =
     (let db' = db\<lparr>count := wrap64 (count db + 1)\<rparr>;
          n = int (length (readreplicas db'))
      in if n = 0 then Abort DivideByZero else Return (db', go_rem (count db') n))"

definition readReplicaRoundRobinHelper :: "DB \<Rightarrow> (DB \<times> handle) outcome" where
  "readReplicaRoundRobinHelper db =
     (case nextIdx db of
        Abort f \<Rightarrow> Abort f
      | Return (db', idx) \<Rightarrow>
          if idx < 0 \<or> int (length (readreplicas db')) \<le> idx then Abort IndexOutOfRange
          else Return (db', readreplicas db' ! nat idx))"

text \<open>
  The loop of \<open>readReplicaRoundRobin\<close>,
  \<^verbatim>\<open>for try := 1; try <= len(db.readreplicas); try++\<close>, from a given value of
  \<open>try\<close>.
\<close>

function rrLoop :: "nat \<Rightarrow> DB \<Rightarrow> (DB \<times> (error + handle)) outcome" where
  "rrLoop try db =
     (if try \<le> length (readreplicas db) then
        (case readReplicaRoundRobinHelper db of
           Abort f \<Rightarrow> Abort f
         | Return (db', r) \<Rightarrow>
             if needHeartbeat db' \<and> r \<in> unavailableReplicas db' then rrLoop (try + 1) db'
             else Return (db', Inr r))
      else Return (db, Inl ErrNoReplicaAvailable))"
  by pat_completeness auto
termination
  by (relation "measure (\<lambda>(try, db). length (readreplicas db) + 1 - try)")
     (auto simp: readReplicaRoundRobinHelper_def nextIdx_def Let_def split: if_splits)

declare rrLoop.simps [simp del]

definition readReplicaRoundRobin ::
  "globals \<Rightarrow> DB \<Rightarrow> bool list \<Rightarrow> (DB \<times> (error + handle)) outcome" where
  "readReplicaRoundRobin g db bypassAutoFailover =
     (if \<not> DoValidateNew g \<and> length (readreplicas db) = 0
      then Return (db, Inl ErrNotProvidedReplicas)
      else if \<not> needHeartbeat db \<or> (length bypassAutoFailover > 0 \<and> bypassAutoFailover ! 0)
      then (case readReplicaRoundRobinHelper db of
              Abort f \<Rightarrow> Abort f
            | Return (db', r) \<Rightarrow> Return (db', Inr r))
      else rrLoop 1 db)"

subsection \<open>Delegation\<close>

text \<open>
  The call an operation hands to the chosen handle.  The operation returns whatever the
  handle returns for it, so the model stops at the call itself.  The variadic
  \<open>args\<close> and the options of \<open>BeginTx\<close> are passed through untouched and take
  no part in routing; they are left out.  A method called on a nil \<open>*sql.DB\<close>
  dereferences it.
\<close>

datatype request =
    RQuery string
  | RQueryContext Context string
  | RQueryRow string
  | RQueryRowContext Context string
  | RBegin
  | RBeginTx Context
  | RExec string
  | RExecContext Context string
  | RPrepare string
  | RPrepareContext Context string

definition forward :: "DB \<Rightarrow> handle \<Rightarrow> request \<Rightarrow> (DB \<times> (error + handle \<times> request)) outcome" where
  "forward db tgtdb req =
     (if tgtdb = NilDB then Abort NilDereference else Return (db, Inr (tgtdb, req)))"

definition forwardRow :: "DB \<Rightarrow> handle \<Rightarrow> request \<Rightarrow> (DB \<times> handle \<times> request) outcome" where
  "forwardRow db tgtdb req =
     (if tgtdb = NilDB then Abort NilDereference else Return (db, tgtdb, req))"

subsection \<open>Read operations\<close>

definition Query :: "globals \<Rightarrow> DB \<Rightarrow> string \<Rightarrow> (DB \<times> (error + handle \<times> request)) outcome" where
  "Query g db query =
     (case validateQuery g query of
        Some err \<Rightarrow> Return (db, Inl err)
      | None \<Rightarrow>
          (case readReplicaRoundRobin g db [] of
             Abort f \<Rightarrow> Abort f
           | Return (db', Inl err) \<Rightarrow> Return (db', Inl err)
           | Return (db', Inr tgtdb) \<Rightarrow> forward db' tgtdb (RQuery query)))"

definition QueryContext ::
  "globals \<Rightarrow> DB \<Rightarrow> Context \<Rightarrow> string \<Rightarrow> (DB \<times> (error + handle \<times> request)) outcome" where
  "QueryContext g db ctx query =
     (case validateQuery g query of
        Some err \<Rightarrow> Return (db, Inl err)
      | None \<Rightarrow>
          if UsePrimaryFromContext ctx \<and> \<not> primaryInMaintence db then
            (if \<not> DoValidateNew g \<and> master db = NilDB then Return (db, Inl ErrNotProvidedPrimary)
             else forward db (master db) (RQueryContext ctx query))
          else
            (case readReplicaRoundRobin g db [] of
               Abort f \<Rightarrow> Abort f
             | Return (db', Inl err) \<Rightarrow> Return (db', Inl err)
             | Return (db', Inr tgtdb) \<Rightarrow> forward db' tgtdb (RQueryContext ctx query)))"

text \<open>\<open>QueryRow\<close> and \<open>QueryRowContext\<close> return a \<open>*sql.Row\<close> and no error:
  a failed selection panics with the error.\<close>

definition QueryRow :: "globals \<Rightarrow> DB \<Rightarrow> string \<Rightarrow> (DB \<times> handle \<times> request) outcome" where
  "QueryRow g db query =
     (case readReplicaRoundRobin g db [True] of
        Abort f \<Rightarrow> Abort f
      | Return (db', Inl err) \<Rightarrow> Abort (PanicWith err)
      | Return (db', Inr tgtdb) \<Rightarrow> forwardRow db' tgtdb (RQueryRow query))"

definition QueryRowContext ::
  "globals \<Rightarrow> DB \<Rightarrow> Context \<Rightarrow> string \<Rightarrow> (DB \<times> handle \<times> request) outcome" where
  "QueryRowContext g db ctx query =
     (if UsePrimaryFromContext ctx \<and> \<not> primaryInMaintence db then
        (if \<not> DoValidateNew g \<and> master db = NilDB then Abort (PanicWith ErrNotProvidedPrimary)
         else forwardRow db (master db) (RQueryRowContext ctx query))
      else
        (case readReplicaRoundRobin g db [True] of
           Abort f \<Rightarrow> Abort f
         | Return (db', Inl err) \<Rightarrow> Abort (PanicWith err)
         | Return (db', Inr tgtdb) \<Rightarrow> forwardRow db' tgtdb (RQueryRowContext ctx query)))"

subsection \<open>Operations on the primary\<close>

text \<open>
  \<open>Begin\<close>, \<open>BeginTx\<close>, \<open>Exec\<close>, \<open>ExecContext\<close> and the primary branch of
  \<open>Prepare\<close> and \<open>PrepareContext\<close> repeat the same two checks before the call.
\<close>

definition Begin :: "globals \<Rightarrow> DB \<Rightarrow> (DB \<times> (error + handle \<times> request)) outcome" where
  "Begin g db =
     (if primaryInMaintence db then Return (db, Inl ErrPrimaryInMaintenance)
      else if \<not> DoValidateNew g \<and> master db = NilDB then Return (db, Inl ErrNotProvidedPrimary)
      else forward db (master db) RBegin)"

definition BeginTx :: "globals \<Rightarrow> DB \<Rightarrow> Context \<Rightarrow> (DB \<times> (error + handle \<times> request)) outcome" where
  "BeginTx g db ctx =
     (if primaryInMaintence db then Return (db, Inl ErrPrimaryInMaintenance)
      else if \<not> DoValidateNew g \<and> master db = NilDB then Return (db, Inl ErrNotProvidedPrimary)
      else forward db (master db) (RBeginTx ctx))"

definition Exec :: "globals \<Rightarrow> DB \<Rightarrow> string \<Rightarrow> (DB \<times> (error + handle \<times> request)) outcome" where
  "Exec g db query =
     (if primaryInMaintence db then Return (db, Inl ErrPrimaryInMaintenance)
      else if \<not> DoValidateNew g \<and> master db = NilDB then Return (db, Inl ErrNotProvidedPrimary)
      else forward db (master db) (RExec query))"

definition ExecContext ::
  "globals \<Rightarrow> DB \<Rightarrow> Context \<Rightarrow> string \<Rightarrow> (DB \<times> (error + handle \<times> request)) outcome" where
  "ExecContext g db ctx query =
     (if primaryInMaintence db then Return (db, Inl ErrPrimaryInMaintenance)
      else if \<not> DoValidateNew g \<and> master db = NilDB then Return (db, Inl ErrNotProvidedPrimary)
      else forward db (master db) (RExecContext ctx query))"

definition Prepare :: "globals \<Rightarrow> DB \<Rightarrow> string \<Rightarrow> (DB \<times> (error + handle \<times> request)) outcome" where
  "Prepare g db query =
     (if IsQuerySqlFunc_now g query then
        (case readReplicaRoundRobin g db [] of
           Abort f \<Rightarrow> Abort f
         | Return (db', Inl err) \<Rightarrow> Return (db', Inl err)
         | Return (db', Inr tgtdb) \<Rightarrow> forward db' tgtdb (RPrepare query))
      else if primaryInMaintence db then Return (db, Inl ErrPrimaryInMaintenance)
      else if \<not> DoValidateNew g \<and> master db = NilDB then Return (db, Inl ErrNotProvidedPrimary)
      else forward db (master db) (RPrepare query))"

definition PrepareContext ::
  "globals \<Rightarrow> DB \<Rightarrow> Context \<Rightarrow> string \<Rightarrow> (DB \<times> (error + handle \<times> request)) outcome" where
  "PrepareContext g db ctx query =
     (let isQuery = IsQuerySqlFunc_now g query; usePrimary = UsePrimaryFromContext ctx in
      if isQuery \<and> \<not> usePrimary then
        (case readReplicaRoundRobin g db [] of
           Abort f \<Rightarrow> Abort f
         | Return (db', Inl err) \<Rightarrow> Return (db', Inl err)
         | Return (db', Inr tgtdb) \<Rightarrow> forward db' tgtdb (RPrepareContext ctx query))
      else if primaryInMaintence db then Return (db, Inl ErrPrimaryInMaintenance)
      else if \<not> DoValidateNew g \<and> master db = NilDB then Return (db, Inl ErrNotProvidedPrimary)
      else forward db (master db) (RPrepareContext ctx query))"

subsection \<open>Close\<close>

text \<open>
  \<open>multierr.Append\<close>: the combined error is the list of the errors appended so far,
  the empty list being nil.
\<close>

definition multierr_Append :: "error list \<Rightarrow> error \<Rightarrow> error list" where
  "multierr_Append errs err = errs @ [err]"

datatype close_step = CloseChan | CloseDB handle

text \<open>\<open>cl\<close> is the answer of the driver to \<open>Close\<close> on the handle at an address.\<close>

definition closeHandle :: "(nat \<Rightarrow> error option) \<Rightarrow> handle \<Rightarrow> error option outcome" where
  "closeHandle cl h = (case h of NilDB \<Rightarrow> Abort NilDereference | Ptr a \<Rightarrow> Return (cl a))"

fun closeReplicas ::
  "(nat \<Rightarrow> error option) \<Rightarrow> handle list \<Rightarrow> close_step list \<times> error list
     \<Rightarrow> (close_step list \<times> error list) outcome" where
  "closeReplicas cl [] acc = Return acc"
| "closeReplicas cl (r # rs) (steps, errs) =
     (case closeHandle cl r of
        Abort f \<Rightarrow> Abort f
      | Return err \<Rightarrow>
          closeReplicas cl rs
            (steps @ [CloseDB r],
             (case err of None \<Rightarrow> errs | Some e \<Rightarrow> multierr_Append errs e)))"

text \<open>
  \<open>Close\<close> returns the router, the steps it took in order, and the combined error.
  Closing a channel that is closed already panics.
\<close>

definition Close ::
  "(nat \<Rightarrow> error option) \<Rightarrow> DB \<Rightarrow> (DB \<times> close_step list \<times> error list) outcome" where
  "Close cl db =
     (if stopHeartbeat db = ChanClosed then Abort CloseOfClosedChannel
      else
        (let db' = db\<lparr>stopHeartbeat := ChanClosed\<rparr> in
         case (if \<not> primaryInMaintence db' then
                 (case closeHandle cl (master db') of
                    Abort f \<Rightarrow> Abort f
                  | Return err \<Rightarrow>
                      Return ([CloseChan, CloseDB (master db')],
                              (case err of None \<Rightarrow> [] | Some e \<Rightarrow> multierr_Append [] e)))
               else Return ([CloseChan], [])) of
           Abort f \<Rightarrow> Abort f
         | Return acc \<Rightarrow>
             (case closeReplicas cl (readreplicas db') acc of
                Abort f \<Rightarrow> Abort f
              | Return (steps, errs) \<Rightarrow> Return (db', steps, errs))))"

section \<open>Runs and reachable states\<close>

text \<open>\<open>k\<close> consecutive calls of \<open>readReplicaRoundRobin\<close>, with the results in
  call order; and the indices computed by \<open>k\<close> consecutive cursor steps.\<close>

fun selections ::
  "globals \<Rightarrow> bool list \<Rightarrow> nat \<Rightarrow> DB \<Rightarrow> (DB \<times> (error + handle) list) outcome" where
  "selections g bp 0 db = Return (db, [])"
| "selections g bp (Suc k) db =
     (case readReplicaRoundRobin g db bp of
        Abort f \<Rightarrow> Abort f
      | Return (db', res) \<Rightarrow>
          (case selections g bp k db' of
             Abort f \<Rightarrow> Abort f
           | Return (db'', ress) \<Rightarrow> Return (db'', res # ress)))"

fun indices :: "nat \<Rightarrow> DB \<Rightarrow> (DB \<times> int list) outcome" where
  "indices 0 db = Return (db, [])"
| "indices (Suc k) db =
     (case nextIdx db of
        Abort f \<Rightarrow> Abort f
      | Return (db', idx) \<Rightarrow>
          (case indices k db' of
             Abort f \<Rightarrow> Abort f
           | Return (db'', idxs) \<Rightarrow> Return (db'', idx # idxs)))"

text \<open>
  The states a router and its goroutine pass through: built by \<open>New\<close>, then changed
  by turns of the goroutine and by the operations above, with any values of the package
  variables and any answers of the driver at each step.  \<open>Ping\<close>,
  \<open>PingContext\<close> and the three pool setters assign no field of the router.
\<close>

inductive reachable :: "DB \<times> monitor \<Rightarrow> bool" where
  r_New: "New g getenv ping m rs = Return s \<Longrightarrow> reachable s"
| r_monitor: "reachable (db, mon) \<Longrightarrow> monitor_turn ping mon ev db = Return (db', steps, cont)
     \<Longrightarrow> reachable (db', mon)"
| r_helper: "reachable (db, mon) \<Longrightarrow> readReplicaRoundRobinHelper db = Return (db', r)
     \<Longrightarrow> reachable (db', mon)"
| r_select: "reachable (db, mon) \<Longrightarrow> readReplicaRoundRobin g db bp = Return (db', res)
     \<Longrightarrow> reachable (db', mon)"
| r_Query: "reachable (db, mon) \<Longrightarrow> Query g db query = Return (db', res)
     \<Longrightarrow> reachable (db', mon)"
| r_QueryContext: "reachable (db, mon) \<Longrightarrow> QueryContext g db ctx query = Return (db', res)
     \<Longrightarrow> reachable (db', mon)"
| r_QueryRow: "reachable (db, mon) \<Longrightarrow> QueryRow g db query = Return (db', row)
     \<Longrightarrow> reachable (db', mon)"
| r_QueryRowContext: "reachable (db, mon) \<Longrightarrow> QueryRowContext g db ctx query = Return (db', row)
     \<Longrightarrow> reachable (db', mon)"
| r_Begin: "reachable (db, mon) \<Longrightarrow> Begin g db = Return (db', res)
     \<Longrightarrow> reachable (db', mon)"
| r_BeginTx: "reachable (db, mon) \<Longrightarrow> BeginTx g db ctx = Return (db', res)
     \<Longrightarrow> reachable (db', mon)"
| r_Exec: "reachable (db, mon) \<Longrightarrow> Exec g db query = Return (db', res)
     \<Longrightarrow> reachable (db', mon)"
| r_ExecContext: "reachable (db, mon) \<Longrightarrow> ExecContext g db ctx query = Return (db', res)
     \<Longrightarrow> reachable (db', mon)"
| r_Prepare: "reachable (db, mon) \<Longrightarrow> Prepare g db query = Return (db', res)
     \<Longrightarrow> reachable (db', mon)"
| r_PrepareContext: "reachable (db, mon) \<Longrightarrow> PrepareContext g db ctx query = Return (db', res)
     \<Longrightarrow> reachable (db', mon)"
| r_Close: "reachable (db, mon) \<Longrightarrow> Close cl db = Return (db', steps, errs)
     \<Longrightarrow> reachable (db', mon)"



text \<open>The replicas of a list whose ping fails under \<open>ping\<close>.\<close>

definition ping_fails :: "(nat \<Rightarrow> error option) \<Rightarrow> handle \<Rightarrow> bool" where
  "ping_fails ping r = (case r of NilDB \<Rightarrow> False | Ptr a \<Rightarrow> ping a \<noteq> None)"

definition failing :: "(nat \<Rightarrow> error option) \<Rightarrow> handle list \<Rightarrow> handle set" where
  "failing ping rs = set (filter (ping_fails ping) rs)"

text \<open>
  The package variables as they are initialised when none of the environment variables
  is set, an environment with no variable set, and a driver that answers every ping or
  close with success.
\<close>

definition defaults :: globals where
  "defaults =
     \<lparr>DoValidateNew = False, DisableReplicaAutoFailover = False,
      DefaultReplicaAutoFailoverInterval = 30 * 1000000000,
      IsQuerySqlFunc_now = IsQuerySqlFunc\<rparr>"

definition no_env :: "string \<Rightarrow> string" where
  "no_env key = []"

definition all_ok :: "nat \<Rightarrow> error option" where
  "all_ok a = None"

text \<open>Two routers to run the code on: the one \<open>New\<close> builds by default over
  three healthy replicas, and one whose two replicas are both marked unavailable.\<close>

definition three_replicas :: DB where
  "three_replicas =
     \<lparr>master = Ptr 0, readreplicas = [Ptr 1, Ptr 2, Ptr 3], count = - 1, needHeartbeat = True,
      unavailableReplicas = {}, stopHeartbeat = ChanOpen, primaryInMaintence = False\<rparr>"

definition both_down :: DB where
  "both_down =
     \<lparr>master = Ptr 0, readreplicas = [Ptr 1, Ptr 2], count = - 1, needHeartbeat = True,
      unavailableReplicas = {Ptr 1, Ptr 2}, stopHeartbeat = ChanOpen, primaryInMaintence = False\<rparr>"

text \<open>\<open>context.Background()\<close>: a context carrying no value.\<close>

definition Background :: Context where
  "Background = Map.empty"

text \<open>Drivers that fail for exactly one address, or for every address but one.\<close>

definition only_down :: "nat \<Rightarrow> nat \<Rightarrow> error option" where
  "only_down k a = (if a = k then Some (DriverError a) else None)"


text \<open>The second router differs from the first in the cursor and the stop channel
  at most: its replica list and its unavailable set are the same.\<close>

definition static :: "DB \<Rightarrow> DB \<Rightarrow> bool" where
  "static db db' \<longleftrightarrow>
     readreplicas db' = readreplicas db \<and> unavailableReplicas db' = unavailableReplicas db"

section \<open>The classifier\<close>

lemma toLowerByte_eq_lower_iff:
  assumes "97 \<le> (of_char k :: nat)" "(of_char k :: nat) \<le> 122"
  shows "toLowerByte c = k \<longleftrightarrow> same_letter k c"
proof (cases "65 \<le> (of_char c :: nat) \<and> (of_char c :: nat) \<le> 90")
  case True
  then have "toLowerByte c = char_of ((of_char c :: nat) + 32)"
    by (simp add: toLowerByte_def Let_def)
  moreover have "(char_of ((of_char c :: nat) + 32) = k) \<longleftrightarrow> ((of_char k :: nat) = of_char c + 32)"
  proof
    assume "char_of ((of_char c :: nat) + 32) = k"
    then have "(of_char k :: nat) = of_char (char_of ((of_char c :: nat) + 32))" by simp
    also have "\<dots> = (of_char c + 32) mod 256" by (simp only: of_char_of)
    finally show "(of_char k :: nat) = of_char c + 32" using True by simp
  next
    assume "(of_char k :: nat) = of_char c + 32"
    then have "char_of ((of_char c :: nat) + 32) = char_of (of_char k :: nat)" by simp
    then show "char_of ((of_char c :: nat) + 32) = k" by simp
  qed
  ultimately show ?thesis using True assms by (auto simp: same_letter_def)
next
  case False
  then have "toLowerByte c = c" by (auto simp: toLowerByte_def Let_def)
  then show ?thesis using False assms by (auto simp: same_letter_def)
qed

lemma six_bytes:
  assumes "6 \<le> length q"
  obtains a b c d e f r where "q = a # b # c # d # e # f # r"
proof -
  from assms obtain a q1 where 1: "q = a # q1" "5 \<le> length q1" by (cases q) auto
  then obtain b q2 where 2: "q1 = b # q2" "4 \<le> length q2" by (cases q1) auto
  then obtain c q3 where 3: "q2 = c # q3" "3 \<le> length q3" by (cases q2) auto
  then obtain d q4 where 4: "q3 = d # q4" "2 \<le> length q4" by (cases q3) auto
  then obtain e q5 where 5: "q4 = e # q5" "1 \<le> length q5" by (cases q4) auto
  then obtain f r where 6: "q5 = f # r" by (cases q5) auto
  show ?thesis using that 1 2 3 4 5 6 by simp
qed

lemma begins_with_ci_length: "begins_with_ci kw q \<Longrightarrow> length kw \<le> length q"
  by (induction kw q rule: begins_with_ci.induct) simp_all

lemma IsQuerySqlFunc_iff_prefix: "IsQuerySqlFunc q \<longleftrightarrow> begins_with_ci ''select'' q"
proof (cases "6 \<le> length q")
  case False
  then have "\<not> begins_with_ci ''select'' q"
    using begins_with_ci_length [of "''select''" q] by auto
  with False show ?thesis by (simp add: IsQuerySqlFunc_def)
next
  case True
  then obtain a b c d e f r where q: "q = a # b # c # d # e # f # r"
    by (rule six_bytes)
  show ?thesis unfolding q
    by (simp add: IsQuerySqlFunc_def ToLower_def toLowerByte_eq_lower_iff)
qed

text \<open>
  Claim C5.  The default classifier answers true exactly for the texts that begin with
  the keyword \<open>select\<close> up to the case of each letter.  Nothing is trimmed first: a
  text whose first byte is white space is not a query, nor is a text of fewer than six
  bytes.
\<close>

theorem classifier_select_prefix:
  "(IsQuerySqlFunc query \<longleftrightarrow> begins_with_ci ''select'' query)
   \<and> (isSpaceByte w \<longrightarrow> \<not> IsQuerySqlFunc (w # rest))
   \<and> (length short < 6 \<longrightarrow> \<not> IsQuerySqlFunc short)"
proof -
  have "\<not> IsQuerySqlFunc (w # rest)" if "isSpaceByte w"
  proof -
    have "\<not> same_letter CHR ''s'' w"
      using that by (auto simp: isSpaceByte_def same_letter_def)
    then show ?thesis by (simp add: IsQuerySqlFunc_iff_prefix)
  qed
  moreover have "\<not> IsQuerySqlFunc short" if "length short < 6"
    using that by (simp add: IsQuerySqlFunc_def)
  ultimately show ?thesis by (simp add: IsQuerySqlFunc_iff_prefix)
qed

theorem classifier_select_prefix_witness:
  "IsQuerySqlFunc ''SeLeCt 1'' \<and> begins_with_ci ''select'' ''SeLeCt 1''
   \<and> isSpaceByte CHR '' '' \<and> \<not> IsQuerySqlFunc '' select 1''
   \<and> length ''selec'' < 6 \<and> \<not> IsQuerySqlFunc ''selec''"
proof -
  have w: "isSpaceByte CHR '' ''" by (simp add: isSpaceByte_def)
  have s: "length ''selec'' < 6" by simp
  have b: "begins_with_ci ''select'' ''SeLeCt 1''" by (simp add: same_letter_def)
  note c = classifier_select_prefix [of "''SeLeCt 1''" "CHR '' ''" "''select 1''" "''selec''"]
  from c b have 1: "IsQuerySqlFunc ''SeLeCt 1''" by blast
  from c w have 2: "\<not> IsQuerySqlFunc '' select 1''" by blast
  from c s have 3: "\<not> IsQuerySqlFunc ''selec''" by blast
  show ?thesis using 1 2 3 w s b by blast
qed

section \<open>Round robin\<close>

lemma wrap64_id: "- (2 ^ 63) \<le> x \<Longrightarrow> x < 2 ^ 63 \<Longrightarrow> wrap64 x = x"
  by (simp add: wrap64_def)

lemma go_rem_nonneg: "0 \<le> a \<Longrightarrow> 0 < b \<Longrightarrow> go_rem a b = a mod b"
  by (cases "a = 0") (simp_all add: go_rem_def)

lemma nextIdx_in_range:
  assumes "readreplicas db \<noteq> []" "- 1 \<le> count db" "count db + 1 < 2 ^ 63"
  shows "nextIdx db =
           Return (db\<lparr>count := count db + 1\<rparr>, (count db + 1) mod int (length (readreplicas db)))"
proof -
  have w: "wrap64 (count db + 1) = count db + 1"
    using assms by (intro wrap64_id) simp_all
  have n: "0 < int (length (readreplicas db))" using assms by simp
  show ?thesis using assms n
    by (simp add: nextIdx_def Let_def w go_rem_nonneg)
qed

lemma helper_in_range:
  assumes "readreplicas db \<noteq> []" "- 1 \<le> count db" "count db + 1 < 2 ^ 63"
  shows "readReplicaRoundRobinHelper db =
           Return (db\<lparr>count := count db + 1\<rparr>,
                   readreplicas db ! (nat (count db + 1) mod length (readreplicas db)))"
proof -
  let ?n = "int (length (readreplicas db))"
  have n: "0 < ?n" using assms by simp
  have "0 \<le> (count db + 1) mod ?n" "(count db + 1) mod ?n < ?n"
    using n by simp_all
  moreover have "nat ((count db + 1) mod ?n) = nat (count db + 1) mod length (readreplicas db)"
    using assms by (simp add: nat_mod_distrib)
  ultimately show ?thesis
    using nextIdx_in_range [OF assms]
    by (simp add: readReplicaRoundRobinHelper_def del: of_nat_less_0_iff)
qed

lemma upt_shift: "[0..<Suc k] = 0 # map Suc [0..<k]"
proof -
  have "[0..<Suc k] = 0 # [Suc 0..<Suc k]" by (rule upt_conv_Cons) simp
  then show ?thesis by (simp only: map_Suc_upt)
qed

lemma rr_healthy:
  assumes "readreplicas db \<noteq> []" "- 1 \<le> count db" "count db + 1 < 2 ^ 63"
    and "unavailableReplicas db = {}"
  shows "readReplicaRoundRobin g db bp =
           Return (db\<lparr>count := count db + 1\<rparr>,
                   Inr (readreplicas db ! (nat (count db + 1) mod length (readreplicas db))))"
proof -
  have len: "1 \<le> length (readreplicas db)" using assms(1) by (cases "readreplicas db") simp_all
  have loop: "rrLoop 1 db =
           Return (db\<lparr>count := count db + 1\<rparr>,
                   Inr (readreplicas db ! (nat (count db + 1) mod length (readreplicas db))))"
    using len assms(4) by (subst rrLoop.simps) (simp add: helper_in_range [OF assms(1-3)])
  show ?thesis
    using assms(1) loop
    by (simp add: readReplicaRoundRobin_def helper_in_range [OF assms(1-3)])
qed

lemma selections_healthy:
  assumes "readreplicas db \<noteq> []" "- 1 \<le> count db" "count db + int k < 2 ^ 63"
    and "unavailableReplicas db = {}"
  shows "selections g bp k db =
           Return (db\<lparr>count := count db + int k\<rparr>,
                   map (\<lambda>j. Inr (readreplicas db ! (nat (count db + 1 + int j) mod length (readreplicas db))))
                     [0..<k])"
  using assms
proof (induction k arbitrary: db)
  case 0
  then show ?case by simp
next
  case (Suc k)
  let ?db = "db\<lparr>count := count db + 1\<rparr>"
  have step: "readReplicaRoundRobin g db bp =
           Return (?db, Inr (readreplicas db ! (nat (count db + 1) mod length (readreplicas db))))"
    using Suc.prems by (intro rr_healthy) simp_all
  have "selections g bp k ?db =
           Return (?db\<lparr>count := count ?db + int k\<rparr>,
                   map (\<lambda>j. Inr (readreplicas ?db ! (nat (count ?db + 1 + int j) mod length (readreplicas ?db))))
                     [0..<k])"
    using Suc.prems by (intro Suc.IH) simp_all
  moreover have "?db\<lparr>count := count ?db + int k\<rparr> = db\<lparr>count := count db + int (Suc k)\<rparr>"
    by simp
  moreover have "\<And>j. count ?db + 1 + int j = count db + 1 + int (Suc j)"
    by simp
  moreover have "readreplicas ?db = readreplicas db"
    by simp
  ultimately have rest: "selections g bp k ?db =
           Return (db\<lparr>count := count db + int (Suc k)\<rparr>,
                   map (\<lambda>j. Inr (readreplicas db ! (nat (count db + 1 + int (Suc j)) mod length (readreplicas db))))
                     [0..<k])"
    by (simp only: DB.simps)
  show ?case
    unfolding upt_shift
    by (simp only: selections.simps step rest outcome.case prod.case list.map map_map o_def
          of_nat_0 add_0_right)
qed

lemma indices_in_range:
  assumes "readreplicas db \<noteq> []" "- 1 \<le> count db" "count db + int k < 2 ^ 63"
  shows "indices k db =
           Return (db\<lparr>count := count db + int k\<rparr>,
                   map (\<lambda>j. (count db + 1 + int j) mod int (length (readreplicas db))) [0..<k])"
  using assms
proof (induction k arbitrary: db)
  case 0
  then show ?case by simp
next
  case (Suc k)
  let ?db = "db\<lparr>count := count db + 1\<rparr>"
  have step: "nextIdx db = Return (?db, (count db + 1) mod int (length (readreplicas db)))"
    using Suc.prems by (intro nextIdx_in_range) simp_all
  have "indices k ?db =
           Return (?db\<lparr>count := count ?db + int k\<rparr>,
                   map (\<lambda>j. (count ?db + 1 + int j) mod int (length (readreplicas ?db))) [0..<k])"
    using Suc.prems by (intro Suc.IH) simp_all
  moreover have "?db\<lparr>count := count ?db + int k\<rparr> = db\<lparr>count := count db + int (Suc k)\<rparr>"
    by simp
  moreover have "\<And>j. count ?db + 1 + int j = count db + 1 + int (Suc j)"
    by simp
  moreover have "readreplicas ?db = readreplicas db"
    by simp
  ultimately have rest: "indices k ?db =
           Return (db\<lparr>count := count db + int (Suc k)\<rparr>,
                   map (\<lambda>j. (count db + 1 + int (Suc j)) mod int (length (readreplicas db))) [0..<k])"
    by (simp only: DB.simps)
  show ?case
    unfolding upt_shift
    by (simp only: indices.simps step rest outcome.case prod.case list.map map_map o_def
          of_nat_0 add_0_right)
qed

lemma two_rounds: "map (\<lambda>j. j mod n) [0..<2 * n] = [0..<n] @ [0..<n]"
proof -
  have "[0..<2 * n] = [0..<n] @ [n..<n + n]"
    by (simp only: mult_2 upt_add_eq_append [OF le0])
  moreover have "[n..<n + n] = map (\<lambda>j. j + n) [0..<n]"
    by (simp only: map_add_upt)
  moreover have "map (\<lambda>j. j mod n) [0..<n] = [0..<n]"
    by (rule map_idI) simp
  moreover have "map (\<lambda>j. j mod n) (map (\<lambda>j. j + n) [0..<n]) = [0..<n]"
    unfolding map_map by (rule map_idI) simp
  ultimately show ?thesis by (simp only: map_append)
qed

lemma New_fields:
  assumes "New g getenv ping m rs = Return (db, mon)"
  shows "master db = m" "readreplicas db = rs" "count db = - 1"
    "needHeartbeat db = (\<not> DisableReplicaAutoFailover g)" "stopHeartbeat db = ChanOpen"
    "ticker mon = (if DisableReplicaAutoFailover g then None
                   else Some (DefaultReplicaAutoFailoverInterval g))"
  using assms
  by (auto simp: New_def Let_def split: option.splits outcome.splits if_splits)

text \<open>
  Claim C2.  A router built by \<open>New\<close> over \<open>N \<ge> 1\<close> replicas, with no replica
  marked unavailable, answers its first selection with the replica at index 0; the
  cursor steps of \<open>2N\<close> consecutive selections compute the indices
  \<open>0, \<dots>, N-1, 0, \<dots>, N-1\<close> in this order, and the selections return the replicas
  at these indices.  This holds with or without the health check, and whatever the
  package variables are at the time of the calls.  The bound on \<open>N\<close> keeps the cursor
  below \<open>2^63\<close>; no Go slice of pointers is that long.
\<close>

theorem round_robin_two_rounds:
  assumes "New g getenv ping m rs = Return (db, mon)"
    and "rs \<noteq> []" and "unavailableReplicas db = {}" and "2 * length rs \<le> 2 ^ 63"
  shows "readReplicaRoundRobin g' db bp = Return (db\<lparr>count := 0\<rparr>, Inr (rs ! 0))
       \<and> indices (2 * length rs) db =
           Return (db\<lparr>count := 2 * int (length rs) - 1\<rparr>,
                   map int ([0..<length rs] @ [0..<length rs]))
       \<and> selections g' bp (2 * length rs) db =
           Return (db\<lparr>count := 2 * int (length rs) - 1\<rparr>,
                   map (\<lambda>i. Inr (rs ! i)) ([0..<length rs] @ [0..<length rs]))"
proof -
  note f = New_fields(2,3) [OF assms(1)]
  have ne: "readreplicas db \<noteq> []" using assms(2) f by simp
  have len: "0 < length rs" using assms(2) by simp
  have bound: "count db + int (2 * length rs) < 2 ^ 63"
  proof -
    have "int (2 * length rs) \<le> 2 ^ 63"
      using assms(4) by (metis of_nat_le_iff of_nat_numeral of_nat_power)
    then show ?thesis using f by simp
  qed
  have first: "readReplicaRoundRobin g' db bp = Return (db\<lparr>count := 0\<rparr>, Inr (rs ! 0))"
    using rr_healthy [OF ne _ _ assms(3), of g' bp] f len by simp
  have "indices (2 * length rs) db =
          Return (db\<lparr>count := count db + int (2 * length rs)\<rparr>,
                  map (\<lambda>j. (count db + 1 + int j) mod int (length (readreplicas db))) [0..<2 * length rs])"
    using ne f bound by (intro indices_in_range) simp_all
  moreover have "map (\<lambda>j. (count db + 1 + int j) mod int (length (readreplicas db))) [0..<2 * length rs]
                 = map int (map (\<lambda>j. j mod length rs) [0..<2 * length rs])"
    unfolding map_map by (rule map_cong) (simp_all add: f zmod_int)
  ultimately have idx: "indices (2 * length rs) db =
           Return (db\<lparr>count := 2 * int (length rs) - 1\<rparr>,
                   map int ([0..<length rs] @ [0..<length rs]))"
    using f by (simp only: two_rounds) simp
  have "selections g' bp (2 * length rs) db =
          Return (db\<lparr>count := count db + int (2 * length rs)\<rparr>,
                  map (\<lambda>j. Inr (readreplicas db ! (nat (count db + 1 + int j) mod length (readreplicas db))))
                    [0..<2 * length rs])"
    using ne f bound assms(3) by (intro selections_healthy) simp_all
  moreover have "map (\<lambda>j. Inr (readreplicas db ! (nat (count db + 1 + int j) mod length (readreplicas db))))
                    [0..<2 * length rs]
                 = map (\<lambda>i. Inr (rs ! i)) (map (\<lambda>j. j mod length rs) [0..<2 * length rs])"
    unfolding map_map by (rule map_cong) (simp_all add: f)
  ultimately have sel: "selections g' bp (2 * length rs) db =
           Return (db\<lparr>count := 2 * int (length rs) - 1\<rparr>,
                   map (\<lambda>i. Inr (rs ! i)) ([0..<length rs] @ [0..<length rs]))"
    using f by (simp only: two_rounds) simp
  show ?thesis using first idx sel by simp
qed

lemma New_three_replicas:
  "New defaults no_env all_ok (Ptr 0) [Ptr 1, Ptr 2, Ptr 3] =
     Return (three_replicas, \<lparr>ticker = Some 30000000000\<rparr>)"
  by (simp add: New_def defaults_def no_env_def all_ok_def heartbeat_def ToLower_def
        three_replicas_def)

theorem round_robin_two_rounds_witness:
  "New defaults no_env all_ok (Ptr 0) [Ptr 1, Ptr 2, Ptr 3] =
     Return (three_replicas, \<lparr>ticker = Some 30000000000\<rparr>)
   \<and> [Ptr 1, Ptr 2, Ptr 3] \<noteq> [] \<and> unavailableReplicas three_replicas = {}
   \<and> 2 * length [Ptr 1, Ptr 2, Ptr 3] \<le> (2 :: nat) ^ 63
   \<and> readReplicaRoundRobin defaults three_replicas [] =
       Return (three_replicas\<lparr>count := 0\<rparr>, Inr (Ptr 1))
   \<and> indices 6 three_replicas = Return (three_replicas\<lparr>count := 5\<rparr>, [0, 1, 2, 0, 1, 2])
   \<and> selections defaults [] 6 three_replicas =
       Return (three_replicas\<lparr>count := 5\<rparr>,
               [Inr (Ptr 1), Inr (Ptr 2), Inr (Ptr 3), Inr (Ptr 1), Inr (Ptr 2), Inr (Ptr 3)])"
proof -
  have h1: "New defaults no_env all_ok (Ptr 0) [Ptr 1, Ptr 2, Ptr 3] =
              Return (three_replicas, \<lparr>ticker = Some 30000000000\<rparr>)"
    by (rule New_three_replicas)
  have h2: "[Ptr 1, Ptr 2, Ptr 3] \<noteq> []" by simp
  have h3: "unavailableReplicas three_replicas = {}" by (simp add: three_replicas_def)
  have h4: "2 * length [Ptr 1, Ptr 2, Ptr 3] \<le> (2 :: nat) ^ 63" by simp
  have u: "[0..<3] = [0, 1, 2]" by (simp add: upt_rec)
  note t = round_robin_two_rounds [OF h1 h2 h3 h4, of defaults "[]"]
  from t have "readReplicaRoundRobin defaults three_replicas [] =
       Return (three_replicas\<lparr>count := 0\<rparr>, Inr (Ptr 1))"
    by simp
  moreover from t have "indices 6 three_replicas = Return (three_replicas\<lparr>count := 5\<rparr>, [0, 1, 2, 0, 1, 2])"
    by (simp add: u)
  moreover from t have "selections defaults [] 6 three_replicas =
       Return (three_replicas\<lparr>count := 5\<rparr>,
               [Inr (Ptr 1), Inr (Ptr 2), Inr (Ptr 3), Inr (Ptr 1), Inr (Ptr 2), Inr (Ptr 3)])"
    by (simp add: u)
  ultimately show ?thesis using h1 h2 h3 h4 by blast
qed

lemma rrLoop_all_unavailable:
  assumes "needHeartbeat db" "set (readreplicas db) \<subseteq> unavailableReplicas db"
    and "1 \<le> t" "t \<le> length (readreplicas db) + 1"
    and "- 1 \<le> count db" "count db + int (length (readreplicas db) + 1 - t) < 2 ^ 63"
  shows "rrLoop t db =
           Return (db\<lparr>count := count db + int (length (readreplicas db) + 1 - t)\<rparr>,
                   Inl ErrNoReplicaAvailable)"
  using assms
proof (induction "length (readreplicas db) + 1 - t" arbitrary: t db)
  case 0
  then have "\<not> t \<le> length (readreplicas db)" by simp
  then show ?case using 0 by (subst rrLoop.simps) simp
next
  case (Suc d)
  let ?rs = "readreplicas db"
  let ?db = "db\<lparr>count := count db + 1\<rparr>"
  have le: "t \<le> length ?rs" using Suc.hyps(2) by simp
  then have ne: "?rs \<noteq> []" using Suc.prems(3) by auto
  have h: "readReplicaRoundRobinHelper db =
             Return (?db, ?rs ! (nat (count db + 1) mod length ?rs))"
    using Suc.prems Suc.hyps(2) by (intro helper_in_range ne) simp_all
  have "?rs ! (nat (count db + 1) mod length ?rs) \<in> set ?rs"
    using ne by simp
  then have un: "?rs ! (nat (count db + 1) mod length ?rs) \<in> unavailableReplicas ?db"
    using Suc.prems(2) by auto
  have "rrLoop (t + 1) ?db =
          Return (?db\<lparr>count := count ?db + int (length (readreplicas ?db) + 1 - (t + 1))\<rparr>,
                  Inl ErrNoReplicaAvailable)"
    using Suc.prems Suc.hyps(2) by (intro Suc.hyps(1)) simp_all
  moreover have "?db\<lparr>count := count ?db + int (length (readreplicas ?db) + 1 - (t + 1))\<rparr>
                 = db\<lparr>count := count db + int (length ?rs + 1 - t)\<rparr>"
    using le by simp
  ultimately have rest: "rrLoop (t + 1) ?db =
          Return (db\<lparr>count := count db + int (length ?rs + 1 - t)\<rparr>, Inl ErrNoReplicaAvailable)"
    by simp
  show ?case
    using le h un rest Suc.prems(1) by (subst rrLoop.simps) simp
qed

text \<open>
  Claim C3.  With the health check active and every one of the \<open>N \<ge> 1\<close> replicas
  marked unavailable, \<open>readReplicaRoundRobin\<close> returns \<open>ErrNoReplicaAvailable\<close>.
  The cursor has then advanced by exactly \<open>N\<close>, one step per attempt.  No handle is
  returned, so whatever the primary is, it is not returned.  The cursor is taken in the
  range where its next \<open>N\<close> increments do not wrap around.
\<close>

theorem all_unavailable_fails_after_N:
  assumes "readreplicas db \<noteq> []" and "set (readreplicas db) \<subseteq> unavailableReplicas db"
    and "needHeartbeat db" and "\<not> (length bp > 0 \<and> bp ! 0)"
    and "- 1 \<le> count db" and "count db + int (length (readreplicas db)) < 2 ^ 63"
  shows "readReplicaRoundRobin g db bp =
           Return (db\<lparr>count := count db + int (length (readreplicas db))\<rparr>,
                   Inl ErrNoReplicaAvailable)
       \<and> readReplicaRoundRobin g db bp \<noteq> Return (db', Inr (master db))"
proof -
  have "rrLoop 1 db =
          Return (db\<lparr>count := count db + int (length (readreplicas db) + 1 - 1)\<rparr>,
                  Inl ErrNoReplicaAvailable)"
    using assms by (intro rrLoop_all_unavailable) simp_all
  then show ?thesis
    using assms(1,3,4) by (auto simp: readReplicaRoundRobin_def)
qed

theorem all_unavailable_fails_after_N_witness:
  "readreplicas both_down \<noteq> [] \<and> set (readreplicas both_down) \<subseteq> unavailableReplicas both_down
   \<and> needHeartbeat both_down \<and> \<not> (length ([] :: bool list) > 0 \<and> [] ! 0)
   \<and> - 1 \<le> count both_down \<and> count both_down + int (length (readreplicas both_down)) < 2 ^ 63
   \<and> readReplicaRoundRobin defaults both_down [] =
       Return (both_down\<lparr>count := 1\<rparr>, Inl ErrNoReplicaAvailable)"
proof -
  have h1: "readreplicas both_down \<noteq> []" by (simp add: both_down_def)
  have h2: "set (readreplicas both_down) \<subseteq> unavailableReplicas both_down"
    by (simp add: both_down_def)
  have h3: "needHeartbeat both_down" by (simp add: both_down_def)
  have h4: "\<not> (length ([] :: bool list) > 0 \<and> [] ! 0)" by simp
  have h5: "- 1 \<le> count both_down" by (simp add: both_down_def)
  have h6: "count both_down + int (length (readreplicas both_down)) < 2 ^ 63"
    by (simp add: both_down_def)
  have c: "count both_down + int (length (readreplicas both_down)) = 1"
    by (simp add: both_down_def)
  from all_unavailable_fails_after_N [OF h1 h2 h3 h4 h5 h6, of defaults]
  have "readReplicaRoundRobin defaults both_down [] =
       Return (both_down\<lparr>count := 1\<rparr>, Inl ErrNoReplicaAvailable)"
    unfolding c by simp
  then show ?thesis using h1 h2 h3 h4 h5 h6 by blast
qed

section \<open>Routing of the operations\<close>

text \<open>
  Claim C6.  While the maintenance flag is set, \<open>Exec\<close>, \<open>ExecContext\<close>,
  \<open>Begin\<close>, \<open>BeginTx\<close>, and \<open>Prepare\<close> and \<open>PrepareContext\<close> on a text
  that is not a query, return \<open>ErrPrimaryInMaintenance\<close>: the router is unchanged and
  no call is handed to a handle.  With the flag clear, the primary nil and validation
  relaxed, they return \<open>ErrNotProvidedPrimary\<close>.  The first part holds for every
  primary, the nil one included, so the maintenance check comes first.
\<close>

theorem maintenance_blocks_primary_operations:
  "(primaryInMaintence db \<longrightarrow>
      Exec g db query = Return (db, Inl ErrPrimaryInMaintenance)
    \<and> ExecContext g db ctx query = Return (db, Inl ErrPrimaryInMaintenance)
    \<and> Begin g db = Return (db, Inl ErrPrimaryInMaintenance)
    \<and> BeginTx g db ctx = Return (db, Inl ErrPrimaryInMaintenance)
    \<and> (\<not> IsQuerySqlFunc_now g query \<longrightarrow>
          Prepare g db query = Return (db, Inl ErrPrimaryInMaintenance)
        \<and> PrepareContext g db ctx query = Return (db, Inl ErrPrimaryInMaintenance)))
   \<and> (\<not> primaryInMaintence db \<and> master db = NilDB \<and> \<not> DoValidateNew g \<longrightarrow>
      Exec g db query = Return (db, Inl ErrNotProvidedPrimary)
    \<and> ExecContext g db ctx query = Return (db, Inl ErrNotProvidedPrimary)
    \<and> Begin g db = Return (db, Inl ErrNotProvidedPrimary)
    \<and> BeginTx g db ctx = Return (db, Inl ErrNotProvidedPrimary)
    \<and> (\<not> IsQuerySqlFunc_now g query \<longrightarrow>
          Prepare g db query = Return (db, Inl ErrNotProvidedPrimary)
        \<and> PrepareContext g db ctx query = Return (db, Inl ErrNotProvidedPrimary)))"
  by (simp add: Exec_def ExecContext_def Begin_def BeginTx_def Prepare_def PrepareContext_def)

theorem maintenance_blocks_primary_operations_witness:
  "primaryInMaintence (three_replicas\<lparr>master := NilDB, primaryInMaintence := True\<rparr>)
   \<and> \<not> IsQuerySqlFunc_now defaults ''delete from t''
   \<and> Exec defaults (three_replicas\<lparr>master := NilDB, primaryInMaintence := True\<rparr>) ''delete from t''
       = Return (three_replicas\<lparr>master := NilDB, primaryInMaintence := True\<rparr>, Inl ErrPrimaryInMaintenance)
   \<and> Prepare defaults (three_replicas\<lparr>master := NilDB, primaryInMaintence := True\<rparr>) ''delete from t''
       = Return (three_replicas\<lparr>master := NilDB, primaryInMaintence := True\<rparr>, Inl ErrPrimaryInMaintenance)
   \<and> \<not> primaryInMaintence (three_replicas\<lparr>master := NilDB\<rparr>)
   \<and> master (three_replicas\<lparr>master := NilDB\<rparr>) = NilDB \<and> \<not> DoValidateNew defaults
   \<and> Begin defaults (three_replicas\<lparr>master := NilDB\<rparr>)
       = Return (three_replicas\<lparr>master := NilDB\<rparr>, Inl ErrNotProvidedPrimary)
   \<and> PrepareContext defaults (three_replicas\<lparr>master := NilDB\<rparr>) Background ''delete from t''
       = Return (three_replicas\<lparr>master := NilDB\<rparr>, Inl ErrNotProvidedPrimary)"
proof -
  let ?m = "three_replicas\<lparr>master := NilDB, primaryInMaintence := True\<rparr>"
  let ?n = "three_replicas\<lparr>master := NilDB\<rparr>"
  have h1: "primaryInMaintence ?m" by simp
  have h2: "\<not> IsQuerySqlFunc_now defaults ''delete from t''"
    by (simp add: defaults_def IsQuerySqlFunc_def ToLower_def toLowerByte_def)
  have h3: "\<not> primaryInMaintence ?n" "master ?n = NilDB" "\<not> DoValidateNew defaults"
    by (simp_all add: three_replicas_def defaults_def)
  note a = maintenance_blocks_primary_operations [of ?m defaults "''delete from t''" Background]
  note b = maintenance_blocks_primary_operations [of ?n defaults "''delete from t''" Background]
  from a h1 h2 have 1: "Exec defaults ?m ''delete from t'' = Return (?m, Inl ErrPrimaryInMaintenance)"
    "Prepare defaults ?m ''delete from t'' = Return (?m, Inl ErrPrimaryInMaintenance)"
    by blast+
  from b h2 h3 have 2: "Begin defaults ?n = Return (?n, Inl ErrNotProvidedPrimary)"
    "PrepareContext defaults ?n Background ''delete from t'' = Return (?n, Inl ErrNotProvidedPrimary)"
    by blast+
  show ?thesis using h1 h2 h3 1 2 by blast
qed

text \<open>
  Claim C1, as stated, fails: a text that is not a query is rejected by
  \<open>QueryContext\<close> with \<open>ErrNotQuerySQL\<close> although the context carries the
  directive and the primary is not in maintenance.
\<close>

theorem force_primary_skips_validation_counterexample:
  "\<not> IsQuerySqlFunc_now defaults ''delete from t''
   \<and> UsePrimaryFromContext (WithPrimary Background)
   \<and> \<not> primaryInMaintence three_replicas
   \<and> QueryContext defaults three_replicas (WithPrimary Background) ''delete from t''
       = Return (three_replicas, Inl ErrNotQuerySQL)"
  by (simp add: QueryContext_def validateQuery_def defaults_def IsQuerySqlFunc_def ToLower_def
        toLowerByte_def UsePrimaryFromContext_def WithPrimary_def three_replicas_def)

text \<open>
  Claim C1, amended.  \<open>QueryContext\<close> validates first: a text that is not a query is
  answered with \<open>ErrNotQuerySQL\<close> whatever the context carries.  For a text that is a
  query, a context carrying the directive sends the call to the primary, when the primary
  is present and not in maintenance; the router is unchanged, no replica is selected.
\<close>

theorem QueryContext_validates_then_routes:
  "(\<not> IsQuerySqlFunc_now g query \<longrightarrow>
      QueryContext g db ctx query = Return (db, Inl ErrNotQuerySQL))
   \<and> (IsQuerySqlFunc_now g query \<and> UsePrimaryFromContext ctx \<and> \<not> primaryInMaintence db
        \<and> master db \<noteq> NilDB \<longrightarrow>
      QueryContext g db ctx query = Return (db, Inr (master db, RQueryContext ctx query)))"
  by (simp add: QueryContext_def validateQuery_def forward_def)

theorem QueryContext_validates_then_routes_witness:
  "\<not> IsQuerySqlFunc_now defaults ''delete from t''
   \<and> QueryContext defaults three_replicas (WithPrimary Background) ''delete from t''
       = Return (three_replicas, Inl ErrNotQuerySQL)
   \<and> IsQuerySqlFunc_now defaults ''select * from t''
   \<and> UsePrimaryFromContext (WithPrimary Background)
   \<and> \<not> primaryInMaintence three_replicas \<and> master three_replicas \<noteq> NilDB
   \<and> QueryContext defaults three_replicas (WithPrimary Background) ''select * from t''
       = Return (three_replicas, Inr (Ptr 0, RQueryContext (WithPrimary Background) ''select * from t''))"
proof -
  have h1: "\<not> IsQuerySqlFunc_now defaults ''delete from t''"
    by (simp add: defaults_def IsQuerySqlFunc_def ToLower_def toLowerByte_def)
  have h2: "IsQuerySqlFunc_now defaults ''select * from t''"
    by (simp add: defaults_def IsQuerySqlFunc_def ToLower_def toLowerByte_def)
  have h3: "UsePrimaryFromContext (WithPrimary Background)"
    by (simp add: UsePrimaryFromContext_def WithPrimary_def)
  have h4: "\<not> primaryInMaintence three_replicas" "master three_replicas \<noteq> NilDB"
    "master three_replicas = Ptr 0"
    by (simp_all add: three_replicas_def)
  note a = QueryContext_validates_then_routes
    [of defaults "''delete from t''" three_replicas "WithPrimary Background"]
  note b = QueryContext_validates_then_routes
    [of defaults "''select * from t''" three_replicas "WithPrimary Background"]
  from a h1 have 1: "QueryContext defaults three_replicas (WithPrimary Background) ''delete from t''
       = Return (three_replicas, Inl ErrNotQuerySQL)" by blast
  from b h2 h3 h4 have 2: "QueryContext defaults three_replicas (WithPrimary Background) ''select * from t''
       = Return (three_replicas, Inr (Ptr 0, RQueryContext (WithPrimary Background) ''select * from t''))"
    by simp
  show ?thesis using h1 h2 h3 h4(1,2) 1 2 by blast
qed

lemma rr_bypass:
  "readReplicaRoundRobin g db [True] =
     (if \<not> DoValidateNew g \<and> readreplicas db = [] then Return (db, Inl ErrNotProvidedReplicas)
      else case readReplicaRoundRobinHelper db of
             Abort f \<Rightarrow> Abort f
           | Return (db', r) \<Rightarrow> Return (db', Inr r))"
  by (simp add: readReplicaRoundRobin_def)

lemma QueryRow_cases:
  "QueryRow g db query =
     (if \<not> DoValidateNew g \<and> readreplicas db = [] then Abort (PanicWith ErrNotProvidedReplicas)
      else case readReplicaRoundRobinHelper db of
             Abort f \<Rightarrow> Abort f
           | Return (db', r) \<Rightarrow> forwardRow db' r (RQueryRow query))"
  by (simp add: QueryRow_def rr_bypass split: outcome.splits)

lemma QueryRowContext_cases:
  "QueryRowContext g db ctx query =
     (if UsePrimaryFromContext ctx \<and> \<not> primaryInMaintence db then
        (if \<not> DoValidateNew g \<and> master db = NilDB then Abort (PanicWith ErrNotProvidedPrimary)
         else forwardRow db (master db) (RQueryRowContext ctx query))
      else if \<not> DoValidateNew g \<and> readreplicas db = [] then Abort (PanicWith ErrNotProvidedReplicas)
      else case readReplicaRoundRobinHelper db of
             Abort f \<Rightarrow> Abort f
           | Return (db', r) \<Rightarrow> forwardRow db' r (RQueryRowContext ctx query))"
  by (simp add: QueryRowContext_def rr_bypass split: outcome.splits)

text \<open>
  Claim C10.  \<open>QueryRow\<close> and \<open>QueryRowContext\<close> never abort with
  \<open>ErrNotQuerySQL\<close>, and their outcome does not depend on the classifier at all.
  When they return, the request handed over carries the text as given, and the handle
  is the one \<open>readReplicaRoundRobinHelper\<close> returns (the round robin without the
  health check), or, for \<open>QueryRowContext\<close> under the directive with the primary out
  of maintenance, the primary.  They do return: over a non-empty list of non-nil replicas
  with the cursor in range the call goes to the next replica, and under the directive,
  with the primary present and out of maintenance, to the primary.
\<close>

theorem QueryRow_no_validation:
  "QueryRow g db query \<noteq> Abort (PanicWith ErrNotQuerySQL)
   \<and> QueryRowContext g db ctx query \<noteq> Abort (PanicWith ErrNotQuerySQL)
   \<and> QueryRow (g\<lparr>IsQuerySqlFunc_now := f\<rparr>) db query = QueryRow g db query
   \<and> QueryRowContext (g\<lparr>IsQuerySqlFunc_now := f\<rparr>) db ctx query = QueryRowContext g db ctx query
   \<and> (QueryRow g db query = Return (db', h, req) \<longrightarrow>
        req = RQueryRow query \<and> readReplicaRoundRobinHelper db = Return (db', h))
   \<and> (QueryRowContext g db ctx query = Return (db', h, req) \<longrightarrow>
        req = RQueryRowContext ctx query
        \<and> (if UsePrimaryFromContext ctx \<and> \<not> primaryInMaintence db then db' = db \<and> h = master db
            else readReplicaRoundRobinHelper db = Return (db', h)))
   \<and> (readreplicas db \<noteq> [] \<and> - 1 \<le> count db \<and> count db + 1 < 2 ^ 63
        \<and> NilDB \<notin> set (readreplicas db) \<longrightarrow>
        QueryRow g db query =
          Return (db\<lparr>count := count db + 1\<rparr>,
                  readreplicas db ! (nat (count db + 1) mod length (readreplicas db)),
                  RQueryRow query)
        \<and> (\<not> (UsePrimaryFromContext ctx \<and> \<not> primaryInMaintence db) \<longrightarrow>
            QueryRowContext g db ctx query =
              Return (db\<lparr>count := count db + 1\<rparr>,
                      readreplicas db ! (nat (count db + 1) mod length (readreplicas db)),
                      RQueryRowContext ctx query)))
   \<and> (UsePrimaryFromContext ctx \<and> \<not> primaryInMaintence db \<and> master db \<noteq> NilDB \<longrightarrow>
        QueryRowContext g db ctx query = Return (db, master db, RQueryRowContext ctx query))"
proof -
  have 1: "QueryRow g db query \<noteq> Abort (PanicWith ErrNotQuerySQL)"
    by (auto simp: QueryRow_cases forwardRow_def readReplicaRoundRobinHelper_def nextIdx_def Let_def
          split: outcome.splits if_splits)
  have 2: "QueryRowContext g db ctx query \<noteq> Abort (PanicWith ErrNotQuerySQL)"
    by (auto simp: QueryRowContext_cases forwardRow_def readReplicaRoundRobinHelper_def nextIdx_def Let_def
          split: outcome.splits if_splits)
  have 3: "QueryRow (g\<lparr>IsQuerySqlFunc_now := f\<rparr>) db query = QueryRow g db query"
    by (simp add: QueryRow_cases)
  have 4: "QueryRowContext (g\<lparr>IsQuerySqlFunc_now := f\<rparr>) db ctx query = QueryRowContext g db ctx query"
    by (simp add: QueryRowContext_cases)
  have 5: "req = RQueryRow query \<and> readReplicaRoundRobinHelper db = Return (db', h)"
    if "QueryRow g db query = Return (db', h, req)"
    using that by (auto simp: QueryRow_cases forwardRow_def split: outcome.splits if_splits)
  have 6: "req = RQueryRowContext ctx query
        \<and> (if UsePrimaryFromContext ctx \<and> \<not> primaryInMaintence db then db' = db \<and> h = master db
            else readReplicaRoundRobinHelper db = Return (db', h))"
    if "QueryRowContext g db ctx query = Return (db', h, req)"
    using that by (auto simp: QueryRowContext_cases forwardRow_def split: outcome.splits if_splits)
  have 7: "QueryRow g db query =
          Return (db\<lparr>count := count db + 1\<rparr>,
                  readreplicas db ! (nat (count db + 1) mod length (readreplicas db)),
                  RQueryRow query)
        \<and> (\<not> (UsePrimaryFromContext ctx \<and> \<not> primaryInMaintence db) \<longrightarrow>
            QueryRowContext g db ctx query =
              Return (db\<lparr>count := count db + 1\<rparr>,
                      readreplicas db ! (nat (count db + 1) mod length (readreplicas db)),
                      RQueryRowContext ctx query))"
    if a: "readreplicas db \<noteq> []" "- 1 \<le> count db" "count db + 1 < 2 ^ 63"
      and n: "NilDB \<notin> set (readreplicas db)"
  proof -
    have "readreplicas db ! (nat (count db + 1) mod length (readreplicas db)) \<in> set (readreplicas db)"
      using a(1) by simp
    then have "readreplicas db ! (nat (count db + 1) mod length (readreplicas db)) \<noteq> NilDB"
      using n by metis
    then show ?thesis
      using a(1) by (simp add: QueryRow_cases QueryRowContext_cases helper_in_range [OF a] forwardRow_def)
  qed
  have 8: "QueryRowContext g db ctx query = Return (db, master db, RQueryRowContext ctx query)"
    if "UsePrimaryFromContext ctx \<and> \<not> primaryInMaintence db \<and> master db \<noteq> NilDB"
    using that by (simp add: QueryRowContext_cases forwardRow_def)
  show ?thesis using 1 2 3 4 5 6 7 8 by blast
qed

theorem QueryRow_no_validation_witness:
  "\<not> IsQuerySqlFunc_now defaults ''delete from t''
   \<and> readreplicas three_replicas \<noteq> [] \<and> - 1 \<le> count three_replicas
   \<and> count three_replicas + 1 < 2 ^ 63 \<and> NilDB \<notin> set (readreplicas three_replicas)
   \<and> QueryRow defaults three_replicas ''delete from t''
       = Return (three_replicas\<lparr>count := 0\<rparr>, Ptr 1, RQueryRow ''delete from t'')
   \<and> readReplicaRoundRobinHelper three_replicas = Return (three_replicas\<lparr>count := 0\<rparr>, Ptr 1)
   \<and> \<not> (UsePrimaryFromContext Background \<and> \<not> primaryInMaintence three_replicas)
   \<and> QueryRowContext defaults three_replicas Background ''delete from t''
       = Return (three_replicas\<lparr>count := 0\<rparr>, Ptr 1, RQueryRowContext Background ''delete from t'')
   \<and> UsePrimaryFromContext (WithPrimary Background) \<and> \<not> primaryInMaintence three_replicas
   \<and> master three_replicas \<noteq> NilDB
   \<and> QueryRowContext defaults three_replicas (WithPrimary Background) ''delete from t''
       = Return (three_replicas, Ptr 0, RQueryRowContext (WithPrimary Background) ''delete from t'')
   \<and> Ptr 0 = master three_replicas"
proof -
  let ?q = "''delete from t''"
  have h0: "\<not> IsQuerySqlFunc_now defaults ?q"
    by (simp add: defaults_def IsQuerySqlFunc_def ToLower_def toLowerByte_def)
  have h1: "readreplicas three_replicas \<noteq> []" "- 1 \<le> count three_replicas"
    "count three_replicas + 1 < 2 ^ 63" "NilDB \<notin> set (readreplicas three_replicas)"
    by (simp_all add: three_replicas_def)
  have h2: "\<not> (UsePrimaryFromContext Background \<and> \<not> primaryInMaintence three_replicas)"
    by (simp add: UsePrimaryFromContext_def Background_def)
  have h3: "UsePrimaryFromContext (WithPrimary Background)" "\<not> primaryInMaintence three_replicas"
    "master three_replicas \<noteq> NilDB"
    by (simp_all add: UsePrimaryFromContext_def WithPrimary_def three_replicas_def)
  have v: "three_replicas\<lparr>count := count three_replicas + 1\<rparr> = three_replicas\<lparr>count := 0\<rparr>"
    "readreplicas three_replicas ! (nat (count three_replicas + 1) mod length (readreplicas three_replicas)) = Ptr 1"
    "master three_replicas = Ptr 0"
    by (simp_all add: three_replicas_def)
  note a = QueryRow_no_validation
    [where g = defaults and db = three_replicas and query = ?q and ctx = Background
       and db' = "three_replicas\<lparr>count := 0\<rparr>" and h = "Ptr 1" and req = "RQueryRow ?q"]
  note b = QueryRow_no_validation
    [where g = defaults and db = three_replicas and query = ?q and ctx = "WithPrimary Background"
       and db' = three_replicas and h = "Ptr 0"
       and req = "RQueryRowContext (WithPrimary Background) ?q"]
  from a h1 have 1: "QueryRow defaults three_replicas ?q
       = Return (three_replicas\<lparr>count := 0\<rparr>, Ptr 1, RQueryRow ?q)"
    unfolding v by blast
  from a 1 have 2: "readReplicaRoundRobinHelper three_replicas = Return (three_replicas\<lparr>count := 0\<rparr>, Ptr 1)"
    by blast
  from a h1 h2 have 3: "QueryRowContext defaults three_replicas Background ?q
       = Return (three_replicas\<lparr>count := 0\<rparr>, Ptr 1, RQueryRowContext Background ?q)"
    unfolding v by blast
  from b h3 have 4: "QueryRowContext defaults three_replicas (WithPrimary Background) ?q
       = Return (three_replicas, Ptr 0, RQueryRowContext (WithPrimary Background) ?q)"
    unfolding v by blast
  from b 4 h3 have 5: "Ptr 0 = master three_replicas"
    by simp
  show ?thesis by (intro conjI h0 h1 1 2 h2 3 h3 4 5)
qed

section \<open>Missing replicas\<close>

text \<open>
  Claim C4, as stated, fails: with validation enabled and an empty replica list,
  \<open>readReplicaRoundRobin\<close> does not return \<open>ErrNotProvidedReplicas\<close>.  With the
  health check it returns \<open>ErrNoReplicaAvailable\<close>; without it the helper divides by
  zero.  The router is one built without replicas while validation was relaxed, the
  variable \<open>DoValidateNew\<close> being set afterwards.
\<close>

theorem empty_replicas_validated_counterexample:
  "New defaults no_env all_ok (Ptr 0) [] =
     Return (three_replicas\<lparr>readreplicas := []\<rparr>, \<lparr>ticker = Some 30000000000\<rparr>)
   \<and> DoValidateNew (defaults\<lparr>DoValidateNew := True\<rparr>)
   \<and> readreplicas (three_replicas\<lparr>readreplicas := []\<rparr>) = []
   \<and> readReplicaRoundRobin (defaults\<lparr>DoValidateNew := True\<rparr>) (three_replicas\<lparr>readreplicas := []\<rparr>) []
       = Return (three_replicas\<lparr>readreplicas := []\<rparr>, Inl ErrNoReplicaAvailable)
   \<and> readReplicaRoundRobin (defaults\<lparr>DoValidateNew := True\<rparr>) (three_replicas\<lparr>readreplicas := []\<rparr>) [True]
       = Abort DivideByZero"
proof -
  have "rrLoop 1 (three_replicas\<lparr>readreplicas := []\<rparr>)
          = Return (three_replicas\<lparr>readreplicas := []\<rparr>, Inl ErrNoReplicaAvailable)"
    by (subst rrLoop.simps) simp
  moreover have "New defaults no_env all_ok (Ptr 0) [] =
     Return (three_replicas\<lparr>readreplicas := []\<rparr>, \<lparr>ticker = Some 30000000000\<rparr>)"
    by (simp add: New_def defaults_def no_env_def all_ok_def heartbeat_def ToLower_def
          three_replicas_def)
  ultimately show ?thesis
    by (simp add: readReplicaRoundRobin_def readReplicaRoundRobinHelper_def nextIdx_def Let_def
          three_replicas_def)
qed

text \<open>
  Claim C4, amended.  The test for an empty replica list in \<open>readReplicaRoundRobin\<close> is
  made when validation is relaxed: then every selection over an empty list returns
  \<open>ErrNotProvidedReplicas\<close>.  When validation is enabled the condition is reported at
  construction instead: \<open>New\<close> given a primary and no replica panics with
  \<open>ErrNotProvidedReplicas\<close>, so a router built under validation has a replica.
\<close>

theorem missing_replicas_reported:
  "(\<not> DoValidateNew g \<and> readreplicas db = [] \<longrightarrow>
      readReplicaRoundRobin g db bp = Return (db, Inl ErrNotProvidedReplicas))
   \<and> (DoValidateNew g \<and> m \<noteq> NilDB \<longrightarrow>
      New g getenv ping m [] = Abort (PanicWith ErrNotProvidedReplicas))
   \<and> (DoValidateNew g \<and> New g getenv ping m rs = Return (db', mon) \<longrightarrow> readreplicas db' \<noteq> [])"
proof -
  have 1: "readReplicaRoundRobin g db bp = Return (db, Inl ErrNotProvidedReplicas)"
    if "\<not> DoValidateNew g \<and> readreplicas db = []"
    using that by (simp add: readReplicaRoundRobin_def)
  have 2: "New g getenv ping m [] = Abort (PanicWith ErrNotProvidedReplicas)"
    if "DoValidateNew g \<and> m \<noteq> NilDB"
    using that by (simp add: New_def validateNew_def)
  have 3: "readreplicas db' \<noteq> []" if "DoValidateNew g \<and> New g getenv ping m rs = Return (db', mon)"
  proof
    assume e: "readreplicas db' = []"
    from that have n: "New g getenv ping m rs = Return (db', mon)" by simp
    have "readreplicas db' = rs" by (rule New_fields(2) [OF n])
    with e have "rs = []" by simp
    with that show False
      by (simp add: New_def validateNew_def split: if_splits)
  qed
  show ?thesis using 1 2 3 by blast
qed

theorem missing_replicas_reported_witness:
  "\<not> DoValidateNew defaults \<and> readreplicas (three_replicas\<lparr>readreplicas := []\<rparr>) = []
   \<and> readReplicaRoundRobin defaults (three_replicas\<lparr>readreplicas := []\<rparr>) [True]
       = Return (three_replicas\<lparr>readreplicas := []\<rparr>, Inl ErrNotProvidedReplicas)
   \<and> DoValidateNew (defaults\<lparr>DoValidateNew := True\<rparr>) \<and> Ptr 0 \<noteq> NilDB
   \<and> New (defaults\<lparr>DoValidateNew := True\<rparr>) no_env all_ok (Ptr 0) []
       = Abort (PanicWith ErrNotProvidedReplicas)
   \<and> New (defaults\<lparr>DoValidateNew := True\<rparr>) no_env all_ok (Ptr 0) [Ptr 1, Ptr 2, Ptr 3]
       = Return (three_replicas, \<lparr>ticker = Some 30000000000\<rparr>)
   \<and> readreplicas three_replicas \<noteq> []"
proof -
  let ?e = "three_replicas\<lparr>readreplicas := []\<rparr>"
  let ?g = "defaults\<lparr>DoValidateNew := True\<rparr>"
  have h1: "\<not> DoValidateNew defaults" "readreplicas ?e = []"
    by (simp_all add: defaults_def)
  have h2: "DoValidateNew ?g" "Ptr 0 \<noteq> NilDB" by simp_all
  have h3: "New ?g no_env all_ok (Ptr 0) [Ptr 1, Ptr 2, Ptr 3]
       = Return (three_replicas, \<lparr>ticker = Some 30000000000\<rparr>)"
    by (simp add: New_def defaults_def no_env_def all_ok_def heartbeat_def ToLower_def
        three_replicas_def validateNew_def)
  note a = missing_replicas_reported [where g = defaults and db = ?e and bp = "[True]"]
  note b = missing_replicas_reported
    [where g = ?g and m = "Ptr 0" and getenv = no_env and ping = all_ok
       and rs = "[Ptr 1, Ptr 2, Ptr 3]" and db' = three_replicas
       and mon = "\<lparr>ticker = Some 30000000000\<rparr>"]
  from a h1 have 1: "readReplicaRoundRobin defaults ?e [True] = Return (?e, Inl ErrNotProvidedReplicas)"
    by blast
  from b h2 have 2: "New ?g no_env all_ok (Ptr 0) [] = Abort (PanicWith ErrNotProvidedReplicas)"
    by blast
  from b h2 h3 have 3: "readreplicas three_replicas \<noteq> []" by blast
  show ?thesis using h1 h2 h3 1 2 3 by blast
qed

section \<open>The monitor\<close>

lemma monitor_without_ticker:
  assumes "DisableReplicaAutoFailover g" and "New g getenv ping m rs = Return (db, mon)"
  shows "ticker mon = None" and "monitor_turn ping' mon ev db' = Abort NilDereference"
proof -
  show t: "ticker mon = None" using New_fields(6) [OF assms(2)] assms(1) by simp
  show "monitor_turn ping' mon ev db' = Abort NilDereference"
    using t by (simp add: monitor_turn_def)
qed

text \<open>
  Claim C7 does not hold of the code.  With \<open>DisableReplicaAutoFailover\<close> set,
  \<open>New\<close> makes no ticker but starts the goroutine all the same, and the goroutine's
  first turn dereferences the nil ticker, whichever event it would have taken.
\<close>

theorem monitor_started_without_ticker:
  "DisableReplicaAutoFailover (defaults\<lparr>DisableReplicaAutoFailover := True\<rparr>)
   \<and> New (defaults\<lparr>DisableReplicaAutoFailover := True\<rparr>) no_env all_ok (Ptr 0) [Ptr 1, Ptr 2, Ptr 3]
       = Return (three_replicas\<lparr>needHeartbeat := False\<rparr>, \<lparr>ticker = None\<rparr>)
   \<and> monitor_turn all_ok \<lparr>ticker = None\<rparr> Tick (three_replicas\<lparr>needHeartbeat := False\<rparr>)
       = Abort NilDereference
   \<and> monitor_turn all_ok \<lparr>ticker = None\<rparr> Stop (three_replicas\<lparr>needHeartbeat := False\<rparr>)
       = Abort NilDereference"
  by (simp add: New_def defaults_def no_env_def all_ok_def ToLower_def three_replicas_def
        monitor_turn_def)

lemma static_refl: "static db db"
  by (simp add: static_def)

lemma helper_static: "readReplicaRoundRobinHelper db = Return (db', r) \<Longrightarrow> static db db'"
  by (auto simp: readReplicaRoundRobinHelper_def nextIdx_def Let_def static_def split: if_splits)

lemma rrLoop_static: "rrLoop t db = Return (db', res) \<Longrightarrow> static db db'"
proof (induction t db rule: rrLoop.induct)
  case (1 t db)
  show ?case
  proof (cases "t \<le> length (readreplicas db)")
    case False
    with "1.prems" show ?thesis by (subst (asm) rrLoop.simps) (simp add: static_def)
  next
    case True
    show ?thesis
    proof (cases "readReplicaRoundRobinHelper db")
      case (Abort f)
      with True "1.prems" show ?thesis by (subst (asm) rrLoop.simps) simp
    next
      case (Return p)
      obtain db1 r where p: "p = (db1, r)" by (cases p)
      have s1: "static db db1" using Return p by (intro helper_static) simp
      show ?thesis
      proof (cases "needHeartbeat db1 \<and> r \<in> unavailableReplicas db1")
        case False
        with True Return p "1.prems" have "db' = db1"
          by (subst (asm) rrLoop.simps) auto
        with s1 show ?thesis by simp
      next
        case u: True
        with True Return p "1.prems" have "rrLoop (t + 1) db1 = Return (db', res)"
          by (subst (asm) rrLoop.simps) auto
        then have "static db1 db'"
          using True Return p u by (intro "1.IH") auto
        with s1 show ?thesis by (simp add: static_def)
      qed
    qed
  qed
qed

lemma rr_static: "readReplicaRoundRobin g db bp = Return (db', res) \<Longrightarrow> static db db'"
  by (auto simp: readReplicaRoundRobin_def static_refl split: if_splits outcome.splits
        dest: helper_static rrLoop_static)

lemma forward_static: "forward db h req = Return (db', res) \<Longrightarrow> db' = db"
  by (auto simp: forward_def split: if_splits)

lemma forwardRow_static: "forwardRow db h req = Return (db', row) \<Longrightarrow> db' = db"
  by (auto simp: forwardRow_def split: if_splits)

lemma Query_static: "Query g db query = Return (db', res) \<Longrightarrow> static db db'"
  by (auto simp: Query_def static_refl split: option.splits outcome.splits sum.splits
        dest!: rr_static forward_static)

lemma QueryContext_static: "QueryContext g db ctx query = Return (db', res) \<Longrightarrow> static db db'"
  by (auto simp: QueryContext_def static_refl split: option.splits outcome.splits sum.splits if_splits
        dest!: rr_static forward_static)

lemma QueryRow_static: "QueryRow g db query = Return (db', row) \<Longrightarrow> static db db'"
  by (auto simp: QueryRow_def static_refl split: option.splits outcome.splits sum.splits
        dest!: rr_static forwardRow_static)

lemma QueryRowContext_static: "QueryRowContext g db ctx query = Return (db', row) \<Longrightarrow> static db db'"
  by (auto simp: QueryRowContext_def static_refl split: option.splits outcome.splits sum.splits if_splits
        dest!: rr_static forwardRow_static)

lemma Begin_static: "Begin g db = Return (db', res) \<Longrightarrow> static db db'"
  by (auto simp: Begin_def static_refl split: if_splits dest!: forward_static)

lemma BeginTx_static: "BeginTx g db ctx = Return (db', res) \<Longrightarrow> static db db'"
  by (auto simp: BeginTx_def static_refl split: if_splits dest!: forward_static)

lemma Exec_static: "Exec g db query = Return (db', res) \<Longrightarrow> static db db'"
  by (auto simp: Exec_def static_refl split: if_splits dest!: forward_static)

lemma ExecContext_static: "ExecContext g db ctx query = Return (db', res) \<Longrightarrow> static db db'"
  by (auto simp: ExecContext_def static_refl split: if_splits dest!: forward_static)

lemma Prepare_static: "Prepare g db query = Return (db', res) \<Longrightarrow> static db db'"
  by (auto simp: Prepare_def static_refl split: outcome.splits sum.splits if_splits
        dest!: rr_static forward_static)

lemma PrepareContext_static: "PrepareContext g db ctx query = Return (db', res) \<Longrightarrow> static db db'"
  by (auto simp: PrepareContext_def Let_def static_refl split: outcome.splits sum.splits if_splits
        dest!: rr_static forward_static)

lemma Close_static: "Close cl db = Return (db', steps, errs) \<Longrightarrow> static db db'"
  by (auto simp: Close_def Let_def static_def split: outcome.splits if_splits)

lemma heartbeat_loop_failing:
  "heartbeat_loop ping rs u = Return u' \<Longrightarrow> u' = u \<union> failing ping rs"
proof (induction rs arbitrary: u)
  case Nil
  then show ?case by (simp add: failing_def)
next
  case (Cons r rs)
  then obtain a where r: "r = Ptr a" by (cases r) simp_all
  show ?case
  proof (cases "ping a")
    case None
    with Cons r show ?thesis by (auto simp: failing_def ping_fails_def)
  next
    case (Some err)
    with Cons.prems r have "heartbeat_loop ping rs (insert r u) = Return u'" by simp
    then have "u' = insert r u \<union> failing ping rs" by (rule Cons.IH)
    with Some r show ?thesis by (auto simp: failing_def ping_fails_def)
  qed
qed

lemma heartbeat_loop_returns:
  "NilDB \<notin> set rs \<Longrightarrow> \<exists>u'. heartbeat_loop ping rs u = Return u'"
proof (induction rs arbitrary: u)
  case Nil
  then show ?case by simp
next
  case (Cons r rs)
  then obtain a where r: "r = Ptr a" by (cases r) simp_all
  with Cons show ?case by simp
qed

lemma heartbeat_failing: "heartbeat ping rs = Return u \<Longrightarrow> u = failing ping rs"
  by (auto simp: heartbeat_def dest: heartbeat_loop_failing)

lemma heartbeat_returns: "NilDB \<notin> set rs \<Longrightarrow> heartbeat ping rs = Return (failing ping rs)"
  using heartbeat_loop_returns [of rs ping "{}"] heartbeat_failing [of ping rs]
  by (auto simp: heartbeat_def)

lemma failing_subset: "failing ping rs \<subseteq> set rs"
  by (auto simp: failing_def)

lemma New_subset:
  assumes "New g getenv ping m rs = Return (db, mon)"
  shows "unavailableReplicas db \<subseteq> set (readreplicas db)"
proof (cases "DisableReplicaAutoFailover g")
  case True
  with assms show ?thesis
    by (auto simp: New_def Let_def split: option.splits)
next
  case False
  with assms obtain u where "heartbeat ping rs = Return u" "unavailableReplicas db = u"
    "readreplicas db = rs"
    by (auto simp: New_def Let_def split: option.splits outcome.splits)
  then show ?thesis using failing_subset [of ping rs] by (auto dest: heartbeat_failing)
qed

lemma monitor_turn_Tick:
  assumes "monitor_turn ping mon Tick db = Return (db', steps, cont)"
  shows "db' = db\<lparr>unavailableReplicas := failing ping (readreplicas db)\<rparr>"
    and "steps = MutexLock # map PingReplica (readreplicas db)
                   @ [StoreUnavailable (failing ping (readreplicas db)), MutexUnlock]"
    and "cont"
  using assms
  by (auto simp: monitor_turn_def split: option.splits outcome.splits dest: heartbeat_failing)

lemma monitor_turn_subset:
  assumes "monitor_turn ping mon ev db = Return (db', steps, cont)"
    and "unavailableReplicas db \<subseteq> set (readreplicas db)"
  shows "unavailableReplicas db' \<subseteq> set (readreplicas db')"
proof (cases ev)
  case Tick
  with assms(1) have "db' = db\<lparr>unavailableReplicas := failing ping (readreplicas db)\<rparr>"
    by (simp add: monitor_turn_Tick(1))
  then show ?thesis using failing_subset [of ping "readreplicas db"] by simp
next
  case Stop
  with assms show ?thesis by (auto simp: monitor_turn_def split: option.splits)
qed

lemma static_subset:
  "static db db' \<Longrightarrow> unavailableReplicas db \<subseteq> set (readreplicas db)
     \<Longrightarrow> unavailableReplicas db' \<subseteq> set (readreplicas db')"
  by (simp add: static_def)

lemma reachable_subset:
  "reachable s \<Longrightarrow> unavailableReplicas (fst s) \<subseteq> set (readreplicas (fst s))"
proof (induction rule: reachable.induct)
  case (r_New g getenv ping m rs s)
  then show ?case using New_subset [of g getenv ping m rs "fst s" "snd s"] by simp
next
  case (r_monitor db mon ping ev db' steps cont)
  then show ?case using monitor_turn_subset by fastforce
qed (simp_all only: fst_conv,
     (erule (1) static_subset [OF helper_static] static_subset [OF rr_static]
        static_subset [OF Query_static] static_subset [OF QueryContext_static]
        static_subset [OF QueryRow_static] static_subset [OF QueryRowContext_static]
        static_subset [OF Begin_static] static_subset [OF BeginTx_static]
        static_subset [OF Exec_static] static_subset [OF ExecContext_static]
        static_subset [OF Prepare_static] static_subset [OF PrepareContext_static]
        static_subset [OF Close_static])+)

text \<open>
  Claim C9.  In every reachable state the unavailable set holds replicas of the
  configured list only.  A turn of the goroutine on a tick takes the lock, pings every
  configured replica in list order, stores the set of the replicas whose ping failed, and
  releases the lock: the new set is computed from the replica list and the pings of this
  pass alone, the previous set takes no part, and nothing else of the router changes.
  With a ticker and no nil replica the turn does return.
\<close>

theorem unavailable_within_replicas:
  "(reachable (db, mon) \<longrightarrow> unavailableReplicas db \<subseteq> set (readreplicas db))
   \<and> (monitor_turn ping mon' Tick dbm = Return (db', steps, cont) \<longrightarrow>
        db' = dbm\<lparr>unavailableReplicas := failing ping (readreplicas dbm)\<rparr>
        \<and> steps = MutexLock # map PingReplica (readreplicas dbm)
                    @ [StoreUnavailable (failing ping (readreplicas dbm)), MutexUnlock])
   \<and> (ticker mon' \<noteq> None \<and> NilDB \<notin> set (readreplicas dbm) \<longrightarrow>
        monitor_turn ping mon' Tick dbm =
          Return (dbm\<lparr>unavailableReplicas := failing ping (readreplicas dbm)\<rparr>,
                  MutexLock # map PingReplica (readreplicas dbm)
                    @ [StoreUnavailable (failing ping (readreplicas dbm)), MutexUnlock],
                  True))"
proof -
  have 1: "unavailableReplicas db \<subseteq> set (readreplicas db)" if "reachable (db, mon)"
    using reachable_subset [OF that] by simp
  have 2: "db' = dbm\<lparr>unavailableReplicas := failing ping (readreplicas dbm)\<rparr>
        \<and> steps = MutexLock # map PingReplica (readreplicas dbm)
                    @ [StoreUnavailable (failing ping (readreplicas dbm)), MutexUnlock]"
    if "monitor_turn ping mon' Tick dbm = Return (db', steps, cont)"
    using monitor_turn_Tick(1,2) [OF that] by simp
  have 3: "monitor_turn ping mon' Tick dbm =
          Return (dbm\<lparr>unavailableReplicas := failing ping (readreplicas dbm)\<rparr>,
                  MutexLock # map PingReplica (readreplicas dbm)
                    @ [StoreUnavailable (failing ping (readreplicas dbm)), MutexUnlock],
                  True)"
    if "ticker mon' \<noteq> None \<and> NilDB \<notin> set (readreplicas dbm)"
    using that by (auto simp: monitor_turn_def heartbeat_returns)
  show ?thesis using 1 2 3 by blast
qed

theorem unavailable_within_replicas_witness:
  "ticker \<lparr>ticker = Some 30000000000\<rparr> \<noteq> None \<and> NilDB \<notin> set (readreplicas three_replicas)
   \<and> monitor_turn (only_down 2) \<lparr>ticker = Some 30000000000\<rparr> Tick three_replicas =
       Return (three_replicas\<lparr>unavailableReplicas := {Ptr 2}\<rparr>,
               [MutexLock, PingReplica (Ptr 1), PingReplica (Ptr 2), PingReplica (Ptr 3),
                StoreUnavailable {Ptr 2}, MutexUnlock],
               True)
   \<and> three_replicas\<lparr>unavailableReplicas := {Ptr 2}\<rparr> =
       three_replicas\<lparr>unavailableReplicas := failing (only_down 2) (readreplicas three_replicas)\<rparr>
   \<and> reachable (three_replicas\<lparr>unavailableReplicas := {Ptr 2}\<rparr>, \<lparr>ticker = Some 30000000000\<rparr>)
   \<and> unavailableReplicas (three_replicas\<lparr>unavailableReplicas := {Ptr 2}\<rparr>)
       \<subseteq> set (readreplicas (three_replicas\<lparr>unavailableReplicas := {Ptr 2}\<rparr>))
   \<and> monitor_turn all_ok \<lparr>ticker = Some 30000000000\<rparr> Tick
         (three_replicas\<lparr>unavailableReplicas := {Ptr 2}\<rparr>) =
       Return (three_replicas,
               [MutexLock, PingReplica (Ptr 1), PingReplica (Ptr 2), PingReplica (Ptr 3),
                StoreUnavailable {}, MutexUnlock],
               True)"
proof -
  let ?mon = "\<lparr>ticker = Some 30000000000\<rparr>"
  let ?db = "three_replicas\<lparr>unavailableReplicas := {Ptr 2}\<rparr>"
  let ?steps = "[MutexLock, PingReplica (Ptr 1), PingReplica (Ptr 2), PingReplica (Ptr 3),
                 StoreUnavailable {Ptr 2}, MutexUnlock]"
  have h1: "ticker ?mon \<noteq> None" "NilDB \<notin> set (readreplicas three_replicas)"
    "NilDB \<notin> set (readreplicas ?db)"
    by (simp_all add: three_replicas_def)
  have f: "failing (only_down 2) (readreplicas three_replicas) = {Ptr 2}"
    "failing all_ok (readreplicas ?db) = {}"
    by (simp_all add: failing_def ping_fails_def only_down_def all_ok_def three_replicas_def)
  have p: "map PingReplica (readreplicas three_replicas)
             = [PingReplica (Ptr 1), PingReplica (Ptr 2), PingReplica (Ptr 3)]"
    "map PingReplica (readreplicas ?db)
             = [PingReplica (Ptr 1), PingReplica (Ptr 2), PingReplica (Ptr 3)]"
    by (simp_all add: three_replicas_def)
  have e: "?db\<lparr>unavailableReplicas := {}\<rparr> = three_replicas"
    by (simp add: three_replicas_def)
  note a = unavailable_within_replicas
    [where mon' = ?mon and ping = "only_down 2" and dbm = three_replicas and db = ?db
       and mon = ?mon and db' = ?db and steps = ?steps and cont = True]
  note b = unavailable_within_replicas
    [where mon' = ?mon and ping = all_ok and dbm = ?db]
  have t: "monitor_turn (only_down 2) ?mon Tick three_replicas = Return (?db, ?steps, True)"
    using a [THEN conjunct2, THEN conjunct2] h1(1,2) unfolding f p append.simps
    by (rule mp [OF _ conjI])
  have w: "?db = three_replicas\<lparr>unavailableReplicas := failing (only_down 2) (readreplicas three_replicas)\<rparr>"
    using a [THEN conjunct2, THEN conjunct1, THEN mp, OF t] by (rule conjunct1)
  have "reachable (three_replicas, ?mon)"
    by (rule r_New [OF New_three_replicas])
  then have r: "reachable (?db, ?mon)"
    using t by (rule r_monitor)
  have s: "unavailableReplicas ?db \<subseteq> set (readreplicas ?db)"
    using a [THEN conjunct1] r by (rule mp)
  have u: "monitor_turn all_ok ?mon Tick ?db =
       Return (three_replicas,
               [MutexLock, PingReplica (Ptr 1), PingReplica (Ptr 2), PingReplica (Ptr 3),
                StoreUnavailable {}, MutexUnlock],
               True)"
    using b [THEN conjunct2, THEN conjunct2] h1(1,3) unfolding f e p append.simps
    by (rule mp [OF _ conjI])
  show ?thesis by (intro conjI h1(1,2) t w r s u)
qed

section \<open>Closing\<close>






end
